theory Spec2Isabelle
  imports Main
begin

section \<open>Strings\<close>

text \<open>
  A JavaScript string is modelled as a \<^typ>\<open>string\<close>: a list of code units, each below 256
  (the Latin-1 range). The string methods used by \<^verbatim>\<open>mariadb.server.ts\<close> are written out
  below with the result JavaScript gives on such strings.
\<close>

definition startsWith :: "string \<Rightarrow> string \<Rightarrow> bool" where
  \<comment> \<open>\<^verbatim>\<open>s.startsWith(p)\<close>\<close>
  "startsWith s p = (take (length p) s = p)"

definition endsWith :: "string \<Rightarrow> string \<Rightarrow> bool" where
  \<comment> \<open>\<^verbatim>\<open>s.endsWith(p)\<close>\<close>
  "endsWith s p = (length p \<le> length s \<and> drop (length s - length p) s = p)"

fun includesStr :: "string \<Rightarrow> string \<Rightarrow> bool" where
  \<comment> \<open>\<^verbatim>\<open>s.includes(p)\<close>: \<^verbatim>\<open>p\<close> occurs at some position of \<^verbatim>\<open>s\<close>\<close>
  "includesStr [] p = (p = [])"
| "includesStr (c # cs) p = (startsWith (c # cs) p \<or> includesStr cs p)"

definition lowerChar :: "char \<Rightarrow> char" where
  \<comment> \<open>the lower-case mapping of a code unit below 256: A-Z, and the Latin-1 capitals
      0xC0-0xDE without the multiplication sign 0xD7\<close>
  "lowerChar c =
     (let n = (of_char c :: nat)
      in if (65 \<le> n \<and> n \<le> 90) \<or> (192 \<le> n \<and> n \<le> 222 \<and> n \<noteq> 215)
         then char_of (n + 32) else c)"

definition toLowerCase :: "string \<Rightarrow> string" where
  "toLowerCase s = map lowerChar s"

definition isWordChar :: "char \<Rightarrow> bool" where
  \<comment> \<open>the class \<^verbatim>\<open>[a-zA-Z0-9_]\<close>, which is also \<^verbatim>\<open>\w\<close>\<close>
  "isWordChar c =
     (let n = (of_char c :: nat)
      in (97 \<le> n \<and> n \<le> 122) \<or> (65 \<le> n \<and> n \<le> 90) \<or> (48 \<le> n \<and> n \<le> 57) \<or> n = 95)"

fun split :: "char \<Rightarrow> string \<Rightarrow> string list" where
  \<comment> \<open>\<^verbatim>\<open>s.split(d)\<close> for a one-character separator: never the empty list\<close>
  "split d [] = [[]]"
| "split d (c # cs) =
     (if c = d then [] # split d cs
      else (c # hd (split d cs)) # tl (split d cs))"

fun join :: "string \<Rightarrow> string list \<Rightarrow> string" where
  \<comment> \<open>\<^verbatim>\<open>xs.join(sep)\<close> on an array of strings\<close>
  "join sep [] = []"
| "join sep [x] = x"
| "join sep (x # y # ys) = x @ sep @ join sep (y # ys)"

section \<open>Identifier protection\<close>

definition reservedWords :: "string list" where
  "reservedWords =
     [''not'', ''order'', ''group'', ''limit'', ''offset'', ''by'', ''where'', ''from'', ''select'',
      ''update'', ''delete'', ''add'', ''alter'', ''column'', ''table'', ''into'', ''set'', ''values'',
      ''as'', ''and'', ''or'', ''join'', ''on'', ''having'', ''case'', ''when'', ''then'', ''else'', ''end'',
      ''like'', ''in'', ''between'', ''is'', ''null'', ''asc'', ''desc'', ''distinct'', ''all'', ''exists'',
      ''any'', ''some'', ''inner'', ''outer'', ''left'', ''right'', ''full'', ''cross'', ''using'', ''natural'']"

definition needsQuote :: "string \<Rightarrow> bool" where
  \<comment> \<open>\<^verbatim>\<open>reservedWords.includes(fieldName.toLowerCase()) || /[^a-zA-Z0-9_]/.test(fieldName)\<close>\<close>
  "needsQuote s = (List.member reservedWords (toLowerCase s) \<or> list_ex (\<lambda>c. \<not> isWordChar c) s)"

lemma split_not_Nil [simp]: "split d s \<noteq> []"
  by (induction s) auto

lemma split_part_length: "p \<in> set (split d s) \<Longrightarrow> length p \<le> length s"
proof (induction s arbitrary: p)
  case Nil
  then show ?case by simp
next
  case (Cons c cs)
  obtain q qs where sp: "split d cs = q # qs"
    by (cases "split d cs") auto
  have q: "length q \<le> length cs"
    using Cons.IH [of q] sp by simp
  have qs: "\<And>r. r \<in> set qs \<Longrightarrow> length r \<le> length cs"
    using Cons.IH sp by simp
  show ?case
    using Cons.prems sp q qs by (auto split: if_splits simp: le_SucI)
qed

lemma split_part_shorter:
  "d \<in> set s \<Longrightarrow> p \<in> set (split d s) \<Longrightarrow> length p < length s"
proof (induction s arbitrary: p)
  case Nil
  then show ?case by simp
next
  case (Cons c cs)
  obtain q qs where sp: "split d cs = q # qs"
    by (cases "split d cs") auto
  show ?case
  proof (cases "c = d")
    case True
    then have "p = [] \<or> p \<in> set (split d cs)"
      using Cons.prems(2) by simp
    then show ?thesis
      using split_part_length [of p d cs] by auto
  next
    case False
    then have din: "d \<in> set cs"
      using Cons.prems(1) by simp
    have "p = c # q \<or> p \<in> set qs"
      using Cons.prems(2) False sp by simp
    then show ?thesis
      using Cons.IH [OF din, of q] Cons.IH [OF din, of p] sp by auto
  qed
qed

function protectFieldName :: "string \<Rightarrow> string" where
  "protectFieldName fieldName =
     (if startsWith fieldName ''`'' \<and> endsWith fieldName ''`'' then fieldName
      else if includesStr fieldName ''.''
        then join ''.'' (map protectFieldName (split (CHR ''.'') fieldName))
      else if needsQuote fieldName then ''`'' @ fieldName @ ''`''
      else fieldName)"
  by pat_completeness auto


lemma includesStr_single: "includesStr s [d] \<longleftrightarrow> d \<in> set s"
  by (induction s) (auto simp: startsWith_def)

termination protectFieldName
proof (relation "measure length")
  show "wf (measure length)" by simp
next
  fix fieldName p
  assume "includesStr fieldName ''.''" and "p \<in> set (split (CHR ''.'') fieldName)"
  then show "(p, fieldName) \<in> measure length"
    using split_part_shorter [of "CHR ''.''" fieldName p]
    by (simp add: includesStr_single)
qed

declare protectFieldName.simps [simp del]

section \<open>JavaScript values\<close>

text \<open>
  The values of type \<^verbatim>\<open>any\<close> that a caller passes in. A number is an integer, of the range in
  which JavaScript prints it in plain decimal; an object is the list of its own properties in
  enumeration order, the order of \<^verbatim>\<open>Object.keys\<close> and \<^verbatim>\<open>Object.values\<close>.
\<close>

definition digitChar :: "nat \<Rightarrow> char" where
  "digitChar d = char_of (48 + d)"

function showNat :: "nat \<Rightarrow> string" where
  "showNat n = (if n < 10 then [digitChar n] else showNat (n div 10) @ [digitChar (n mod 10)])"
  by pat_completeness auto
termination
  by (relation "measure id") auto

declare showNat.simps [simp del]

definition showInt :: "int \<Rightarrow> string" where
  "showInt i = (if i < 0 then ''-'' @ showNat (nat (- i)) else showNat (nat i))"

datatype jsval =
    JUndefined
  | JNull
  | JBool bool
  | JNum int
  | JStr string
  | JArr "jsval list"
  | JObj "(string \<times> jsval) list"

fun truthy :: "jsval \<Rightarrow> bool" where
  \<comment> \<open>\<^verbatim>\<open>!v\<close> is false\<close>
  "truthy JUndefined = False"
| "truthy JNull = False"
| "truthy (JBool b) = b"
| "truthy (JNum n) = (n \<noteq> 0)"
| "truthy (JStr s) = (s \<noteq> [])"
| "truthy (JArr xs) = True"
| "truthy (JObj kvs) = True"

fun isString :: "jsval \<Rightarrow> bool" where
  \<comment> \<open>\<^verbatim>\<open>typeof v === 'string'\<close>\<close>
  "isString (JStr s) = True"
| "isString v = False"

fun isObject :: "jsval \<Rightarrow> bool" where
  \<comment> \<open>\<^verbatim>\<open>typeof v === 'object'\<close>, which holds of \<^verbatim>\<open>null\<close> too\<close>
  "isObject JNull = True"
| "isObject (JArr xs) = True"
| "isObject (JObj kvs) = True"
| "isObject v = False"

fun toString :: "jsval \<Rightarrow> string" where
  \<comment> \<open>\<^verbatim>\<open>String(v)\<close>, and \<^verbatim>\<open>${v}\<close> in a template\<close>
  "toString JUndefined = ''undefined''"
| "toString JNull = ''null''"
| "toString (JBool b) = (if b then ''true'' else ''false'')"
| "toString (JNum n) = showInt n"
| "toString (JStr s) = s"
| "toString (JArr xs) =
     join '','' (map (\<lambda>x. if x = JUndefined \<or> x = JNull then [] else toString x) xs)"
| "toString (JObj kvs) = ''[object Object]''"

section \<open>The WHERE compiler\<close>

fun isArray :: "jsval \<Rightarrow> bool" where
  \<comment> \<open>\<^verbatim>\<open>Array.isArray(v)\<close>\<close>
  "isArray (JArr xs) = True"
| "isArray v = False"

fun elems :: "jsval \<Rightarrow> jsval list" where
  \<comment> \<open>the elements of an array; no elements for any other value\<close>
  "elems (JArr xs) = xs"
| "elems v = []"

definition first :: "jsval \<Rightarrow> jsval" where
  \<comment> \<open>\<^verbatim>\<open>where[0]\<close> on an array: \<^verbatim>\<open>undefined\<close> when the array is empty\<close>
  "first w = (case elems w of [] \<Rightarrow> JUndefined | x # _ \<Rightarrow> x)"

definition joinArr :: "string \<Rightarrow> jsval \<Rightarrow> string" where
  \<comment> \<open>\<^verbatim>\<open>arr.join(sep)\<close>: \<^verbatim>\<open>null\<close> and \<^verbatim>\<open>undefined\<close> elements give the empty string\<close>
  "joinArr sep w =
     join sep (map (\<lambda>x. if x = JUndefined \<or> x = JNull then [] else toString x) (elems w))"

fun objectKeys :: "jsval \<Rightarrow> string list" where
  \<comment> \<open>\<^verbatim>\<open>Object.keys(v)\<close> for a value that is neither \<^verbatim>\<open>null\<close> nor \<^verbatim>\<open>undefined\<close>\<close>
  "objectKeys (JObj kvs) = map fst kvs"
| "objectKeys (JArr xs) = map showNat [0..<length xs]"
| "objectKeys (JStr s) = map showNat [0..<length s]"
| "objectKeys v = []"

fun objectValues :: "jsval \<Rightarrow> jsval list" where
  \<comment> \<open>\<^verbatim>\<open>Object.values(v)\<close> for a value that is neither \<^verbatim>\<open>null\<close> nor \<^verbatim>\<open>undefined\<close>\<close>
  "objectValues (JObj kvs) = map snd kvs"
| "objectValues (JArr xs) = xs"
| "objectValues (JStr s) = map (\<lambda>c. JStr [c]) s"
| "objectValues v = []"

definition equalsClauses :: "jsval \<Rightarrow> string" where
  \<comment> \<open>\<^verbatim>\<open>Object.keys(obj).map((key) => `${this.protectFieldName(key)} = ?`).join(' AND ')\<close>\<close>
  "equalsClauses obj =
     join '' AND '' (map (\<lambda>key. protectFieldName key @ '' = ?'') (objectKeys obj))"

definition orClause :: "jsval \<Rightarrow> string" where
  \<comment> \<open>the callback of \<^verbatim>\<open>where.map((obj) => ...)\<close> in the list-of-objects branch\<close>
  "orClause obj = (if \<not> truthy obj then [] else ''('' @ equalsClauses obj @ '')'')"

definition buildWhere :: "jsval \<Rightarrow> string" where
  "buildWhere w =
     (if \<not> truthy w then ''1 = 1''
      else if isString w then toString w
      else if isArray w \<and> elems w \<noteq> [] \<and> isString (first w) then joinArr '' AND '' w
      else if isObject w \<and> \<not> isArray w then equalsClauses w
      else if isArray w \<and> elems w \<noteq> [] \<and> isObject (first w)
        then join '' OR '' (filter (\<lambda>s. s \<noteq> []) (map orClause (elems w)))
      else toString w)"

definition valuesOf :: "jsval \<Rightarrow> jsval list" where
  \<comment> \<open>the callback of \<^verbatim>\<open>where.flatMap(obj => ...)\<close>\<close>
  "valuesOf obj = (if \<not> truthy obj then [] else objectValues obj)"

definition buildWhereParams :: "jsval \<Rightarrow> jsval \<Rightarrow> jsval list" where
  "buildWhereParams w whereParams =
     (if \<not> truthy w then []
      else if whereParams \<noteq> JUndefined
        then (if isArray whereParams then elems whereParams else [whereParams])
      else if isObject w \<and> \<not> isArray w then objectValues w
      else if isArray w \<and> elems w \<noteq> [] \<and> isObject (first w)
        then concat (map valuesOf (elems w))
      else [])"

subsection \<open>The shapes of a WhereSpec\<close>

text \<open>
  The four shapes the specification lists, with the JavaScript value of each. An entry of a
  list of mappings is a mapping or \<^verbatim>\<open>null\<close> (\<open>None\<close>). \<open>present\<close> keeps the mappings of such a
  list, \<open>mappingClause\<close> is the text of one mapping, and \<open>callerMarks\<close> counts the \<^verbatim>\<open>?\<close>
  characters that the caller wrote: those of the raw fragments and of the keys.
\<close>

datatype whereSpec =
    Raw string
  | RawList "string list"
  | Mapping "(string \<times> jsval) list"
  | MappingList "(string \<times> jsval) list option list"

fun present :: "'a option list \<Rightarrow> 'a list" where
  "present [] = []"
| "present (None # ms) = present ms"
| "present (Some m # ms) = m # present ms"

fun nullable :: "(string \<times> jsval) list option \<Rightarrow> jsval" where
  "nullable None = JNull"
| "nullable (Some kvs) = JObj kvs"

fun whereJs :: "whereSpec \<Rightarrow> jsval" where
  "whereJs (Raw s) = JStr s"
| "whereJs (RawList xs) = JArr (map JStr xs)"
| "whereJs (Mapping kvs) = JObj kvs"
| "whereJs (MappingList ms) = JArr (map nullable ms)"

definition questionMarks :: "string \<Rightarrow> nat" where
  "questionMarks s = length (filter (\<lambda>c. c = CHR ''?'') s)"

fun callerMarks :: "whereSpec \<Rightarrow> nat" where
  "callerMarks (Raw s) = questionMarks s"
| "callerMarks (RawList xs) = sum_list (map questionMarks xs)"
| "callerMarks (Mapping kvs) = sum_list (map (\<lambda>kv. questionMarks (fst kv)) kvs)"
| "callerMarks (MappingList ms) =
     sum_list (map (\<lambda>kvs. sum_list (map (\<lambda>kv. questionMarks (fst kv)) kvs)) (present ms))"

definition mappingClause :: "(string \<times> jsval) list \<Rightarrow> string" where
  "mappingClause kvs = join '' AND '' (map (\<lambda>kv. protectFieldName (fst kv) @ '' = ?'') kvs)"

section \<open>Whitespace and the \<^verbatim>\<open>limit 1\<close> test\<close>

definition isSpace :: "char \<Rightarrow> bool" where
  \<comment> \<open>the class \<^verbatim>\<open>\s\<close> below 256: tab, line feed, vertical tab, form feed, carriage
      return, space and the no-break space\<close>
  "isSpace c = (let n = (of_char c :: nat) in (9 \<le> n \<and> n \<le> 13) \<or> n = 32 \<or> n = 160)"

definition trim :: "string \<Rightarrow> string" where
  "trim s = rev (dropWhile isSpace (rev (dropWhile isSpace s)))"

function splitSpaces :: "string \<Rightarrow> string list" where
  \<comment> \<open>\<^verbatim>\<open>s.split(/\s+/)\<close>\<close>
  "splitSpaces [] = [[]]"
| "splitSpaces (c # cs) =
     (if isSpace c then [] # splitSpaces (dropWhile isSpace cs)
      else (c # hd (splitSpaces cs)) # tl (splitSpaces cs))"
  by pat_completeness auto
termination
  by (relation "measure length") (auto simp: length_dropWhile_le less_Suc_eq_le)

definition limitOneHere :: "string \<Rightarrow> bool" where
  \<comment> \<open>\<^verbatim>\<open>limit\s+1\b\<close>, ignoring case, matched at the start of the string\<close>
  "limitOneHere s =
     (toLowerCase (take 5 s) = ''limit''
      \<and> (let r = drop 5 s; t = dropWhile isSpace r
         in r \<noteq> t
            \<and> (case t of
                 [] \<Rightarrow> False
               | c # u \<Rightarrow> c = CHR ''1'' \<and> (case u of [] \<Rightarrow> True | c' # _ \<Rightarrow> \<not> isWordChar c'))))"

fun limitOneFrom :: "bool \<Rightarrow> string \<Rightarrow> bool" where
  \<comment> \<open>the search of \<^verbatim>\<open>/\blimit\s+1\b/i\<close>; the flag says whether the character before is a
      word character, in which case no word boundary precedes the \<^verbatim>\<open>l\<close>\<close>
  "limitOneFrom prevWord [] = False"
| "limitOneFrom prevWord (c # cs) =
     ((\<not> prevWord \<and> limitOneHere (c # cs)) \<or> limitOneFrom (isWordChar c) cs)"

definition hasLimitOne :: "string \<Rightarrow> bool" where
  \<comment> \<open>\<^verbatim>\<open>/\blimit\s+1\b/i.test(sql)\<close>\<close>
  "hasLimitOne sql = limitOneFrom False sql"

section \<open>Results, errors and the pooled client\<close>

text \<open>
  A result row is a list of columns in order; a cell is a scalar. The values a caller passes
  in (WHERE values, parameter overrides, the fields of a record to write) are \<^typ>\<open>jsval\<close>.

  A method of the class takes the pooled client and the state of the class and returns its
  outcome with the new state. The outcome of an \<^verbatim>\<open>async\<close> method is \<open>Inr\<close> of the value it
  resolves to or \<open>Inl\<close> of the error it throws.
\<close>

datatype cell = CNull | CBool bool | CNum int | CStr string

type_synonym row = "(string \<times> cell) list"

record upsertResult =
  affectedRows :: int
  insertId :: int
  warningStatus :: int

datatype result =
    Rows "row list"          \<comment> \<open>an array of rows\<close>
  | Row row                  \<comment> \<open>one row object\<close>
  | Upsert upsertResult      \<comment> \<open>the result of a write\<close>
  | ErrorObj string          \<comment> \<open>the plain object \<^verbatim>\<open>{ error: msg }\<close>\<close>
  | Total nat                \<comment> \<open>the plain object \<^verbatim>\<open>{ total }\<close>\<close>

datatype error =
    Error string             \<comment> \<open>\<^verbatim>\<open>throw new Error(msg)\<close>\<close>
  | MissingWhereField string \<comment> \<open>the \<^verbatim>\<open>Error\<close> of \<^verbatim>\<open>objectUpdate\<close> whose message names the
                                  field absent from a record\<close>
  | TypeError                \<comment> \<open>reading a property of \<^verbatim>\<open>undefined\<close> or \<^verbatim>\<open>null\<close>\<close>
  | SqlError string          \<comment> \<open>a failure raised by the pooled client\<close>

record request =
  sqlText :: string
  sqlOptions :: jsval        \<comment> \<open>the \<^verbatim>\<open>params\<close> spread into \<^verbatim>\<open>{ sql, ...params }\<close>\<close>
  namedPlaceholders :: bool
  bindValues :: jsval

datatype event =
    PoolQuery request        \<comment> \<open>\<^verbatim>\<open>pool.query(sql, values)\<close>\<close>
  | PoolExecute request      \<comment> \<open>\<^verbatim>\<open>pool.execute(sql, values)\<close>\<close>
  | Acquire                  \<comment> \<open>\<^verbatim>\<open>pool.getConnection()\<close> handed out a connection\<close>
  | ConnBatch request        \<comment> \<open>\<^verbatim>\<open>conn.batch(sql, values)\<close>\<close>
  | Release                  \<comment> \<open>\<^verbatim>\<open>conn.release()\<close>\<close>

text \<open>
  The pooled client is an external collaborator: its answers are parameters of the model.
  An answer is a result or a failure.
\<close>

record driver =
  queryReply :: "request \<Rightarrow> error + result"
  executeReply :: "request \<Rightarrow> error + result"
  connectReply :: "error option"     \<comment> \<open>\<^verbatim>\<open>None\<close>: \<^verbatim>\<open>getConnection\<close> succeeds\<close>
  batchReply :: "request \<Rightarrow> error + result"

type_synonym chunkTable = "(jsval \<times> jsval) list"

text \<open>
  Modelled from the spec: the memoization store \<^verbatim>\<open>./cache.server\<close> is not part of the
  sources at hand. The spec gives \<^verbatim>\<open>get(key) -> value | absent\<close> and
  \<^verbatim>\<open>set(key, value) -> void\<close>, used only with the base SQL text as key and a ChunkTable as
  value: a partial map from keys to chunk tables.
\<close>

record world =
  pool :: bool                        \<comment> \<open>\<^verbatim>\<open>this.pool\<close> is set\<close>
  trace :: "event list"               \<comment> \<open>the calls made on the pooled client, oldest first\<close>
  cache :: "string \<rightharpoonup> chunkTable"

definition issue :: "event \<Rightarrow> world \<Rightarrow> world" where
  "issue e w = w\<lparr>trace := trace w @ [e]\<rparr>"

fun isPlainObject :: "jsval \<Rightarrow> bool" where
  \<comment> \<open>\<^verbatim>\<open>values?.constructor === Object\<close>\<close>
  "isPlainObject (JObj kvs) = True"
| "isPlainObject v = False"

fun unwrapOne :: "string \<Rightarrow> result \<Rightarrow> result" where
  \<comment> \<open>\<^verbatim>\<open>if (result.length === 1 && /\blimit\s+1\b/i.test(sql.sql)) return result[0]\<close>; of the
      answers of the client only an array of rows has a length\<close>
  "unwrapOne sql (Rows [r]) = (if hasLimitOne sql then Row r else Rows [r])"
| "unwrapOne sql res = res"

definition query :: "driver \<Rightarrow> world \<Rightarrow> string \<Rightarrow> jsval \<Rightarrow> jsval \<Rightarrow> (error + result) \<times> world" where
  \<comment> \<open>\<^verbatim>\<open>query(sql, values, params)\<close> with a string \<^verbatim>\<open>sql\<close>; the column metadata of the result
      is not modelled\<close>
  "query d w sql vals params =
     (if \<not> pool w then (Inl (Error ''pool is not initialized''), w)
      else
        let req = \<lparr>sqlText = sql, sqlOptions = params,
                   namedPlaceholders = (startsWith (toLowerCase sql) ''select'' \<and> isPlainObject vals),
                   bindValues = vals\<rparr>;
            w' = issue (PoolQuery req) w
        in case queryReply d req of
             Inl e \<Rightarrow> (Inl e, w')
           | Inr res \<Rightarrow> (Inr (unwrapOne sql res), w'))"

definition execute :: "driver \<Rightarrow> world \<Rightarrow> string \<Rightarrow> jsval \<Rightarrow> jsval \<Rightarrow> (error + result) \<times> world" where
  "execute d w sql vals params =
     (if \<not> pool w then (Inr (ErrorObj ''pool is not initialized''), w)
      else
        let req = \<lparr>sqlText = sql, sqlOptions = params, namedPlaceholders = False,
                   bindValues = vals\<rparr>;
            w' = issue (PoolExecute req) w
        in case executeReply d req of
             Inl e \<Rightarrow> (Inl e, w')
           | Inr res \<Rightarrow> (Inr res, w'))"

definition batch :: "driver \<Rightarrow> world \<Rightarrow> string \<Rightarrow> jsval \<Rightarrow> jsval \<Rightarrow> (error + result) \<times> world" where
  "batch d w sql vals params =
     (if \<not> pool w then (Inl (Error ''pool is not initialized''), w)
      else
        case connectReply d of
          Some e \<Rightarrow> (Inl e, w)
        | None \<Rightarrow>
            let req = \<lparr>sqlText = sql, sqlOptions = params, namedPlaceholders = False,
                       bindValues = vals\<rparr>;
                w' = issue (ConnBatch req) (issue Acquire w)
            in case batchReply d req of
                 Inl e \<Rightarrow> (Inl e, w')
               | Inr res \<Rightarrow> (Inr res, issue Release w'))"

section \<open>The chunk planner\<close>

definition rowId :: "row \<Rightarrow> jsval" where
  \<comment> \<open>\<^verbatim>\<open>row.id\<close>: \<^verbatim>\<open>undefined\<close> when the row has no such column\<close>
  "rowId r =
     (case map_of r ''id'' of
        None \<Rightarrow> JUndefined
      | Some CNull \<Rightarrow> JNull
      | Some (CBool b) \<Rightarrow> JBool b
      | Some (CNum n) \<Rightarrow> JNum n
      | Some (CStr s) \<Rightarrow> JStr s)"

function chunkLoop :: "row list \<Rightarrow> nat \<Rightarrow> chunkTable \<Rightarrow> chunkTable" where
  \<comment> \<open>\<^verbatim>\<open>for (let i = 20; i < data.length; i += 1000) chunkTable.push([...])\<close>\<close>
  "chunkLoop data i chunkTable =
     (if i < length data
      then chunkLoop data (i + 1000)
             (chunkTable @
                [(rowId (data ! i),
                  rowId (data ! (if i + 1000 - 1 < length data - 1 then i + 1000 - 1
                                 else length data - 1)))])
      else chunkTable)"
  by pat_completeness auto
termination
  by (relation "measure (\<lambda>(data, i, chunkTable). length data - i)") auto

declare chunkLoop.simps [simp del]

fun buildChunkTable :: "result \<Rightarrow> error + chunkTable" where
  \<comment> \<open>the cache-miss branch of \<^verbatim>\<open>getChunk\<close>, from the value \<^verbatim>\<open>data\<close> that \<^verbatim>\<open>query\<close> returned.
      \<^verbatim>\<open>data[0].id\<close> throws when \<^verbatim>\<open>data[0]\<close> is \<^verbatim>\<open>undefined\<close> or \<^verbatim>\<open>null\<close>; on one row
      object \<^verbatim>\<open>data[0]\<close> is its column named \<^verbatim>\<open>0\<close>, a scalar without an \<^verbatim>\<open>id\<close>\<close>
  "buildChunkTable (Rows []) = Inl TypeError"
| "buildChunkTable (Rows (r # rs)) =
     (let data = r # rs in
      if rowId (data ! 0) = JUndefined then Inl (Error ''id is required'')
      else Inr (chunkLoop data 20
                  [(rowId (data ! 0),
                    rowId (data ! (if length data > 20 then 20 - 1 else length data - 1)))]))"
| "buildChunkTable (Row r) =
     (case map_of r ''0'' of
        None \<Rightarrow> Inl TypeError
      | Some CNull \<Rightarrow> Inl TypeError
      | Some c \<Rightarrow> Inl (Error ''id is required''))"
| "buildChunkTable res = Inl TypeError"

datatype chunkSel = ChunkIndex int | ChunkCount   \<comment> \<open>\<^verbatim>\<open>chunk?: number | '?'\<close>\<close>

fun chunkAnswer :: "chunkTable \<Rightarrow> chunkSel \<Rightarrow> error + (jsval \<times> jsval \<times> nat)" where
  \<comment> \<open>the three returns that end \<^verbatim>\<open>getChunk\<close>; \<^verbatim>\<open>'?' >= n\<close> is false, and a negative index
      reads \<^verbatim>\<open>undefined[0]\<close>\<close>
  "chunkAnswer chunkTable (ChunkIndex c) =
     (if c \<ge> int (length chunkTable) then Inr (JNull, JNull, length chunkTable)
      else if c < 0 then Inl TypeError
      else Inr (fst (chunkTable ! nat c), snd (chunkTable ! nat c), length chunkTable))"
| "chunkAnswer chunkTable ChunkCount = Inr (JNull, JNull, length chunkTable)"

definition getChunk ::
  "driver \<Rightarrow> world \<Rightarrow> string \<Rightarrow> chunkSel \<Rightarrow> (error + (jsval \<times> jsval \<times> nat)) \<times> world" where
  "getChunk d w sql chunk =
     (case cache w (''chunk'' @ sql) of
        Some chunkTable \<Rightarrow> (chunkAnswer chunkTable chunk, w)
      | None \<Rightarrow>
          (case query d w sql JUndefined (JArr []) of
             (Inl e, w') \<Rightarrow> (Inl e, w')
           | (Inr data, w') \<Rightarrow>
               (case buildChunkTable data of
                  Inl e \<Rightarrow> (Inl e, w')
                | Inr chunkTable \<Rightarrow>
                    (chunkAnswer chunkTable chunk,
                     w'\<lparr>cache := (cache w')(''chunk'' @ sql \<mapsto> chunkTable)\<rparr>))))"

section \<open>The SELECT assembler\<close>

datatype command = FindFirst | FindMany | FindAll

datatype strs = Str string | Strs "string list"   \<comment> \<open>\<^verbatim>\<open>string | string[]\<close>\<close>

datatype joinType = LEFT | RIGHT | INNER | OUTER | CROSS

datatype joinTypes = JoinType joinType | JoinTypes "joinType list"

record queryParams =
  q_command :: "command option"
  q_select :: "strs option"
  q_from :: strs
  q_join :: "strs option"
  q_joinType :: "joinTypes option"
  q_where :: jsval                 \<comment> \<open>\<^verbatim>\<open>JUndefined\<close> when absent\<close>
  q_whereParams :: jsval           \<comment> \<open>\<^verbatim>\<open>JUndefined\<close> when absent\<close>
  q_order :: "strs option"
  q_group :: "strs option"
  q_limit :: "int option"
  q_page :: "int option"
  q_offset :: "int option"
  q_chunk :: "chunkSel option"
  q_options :: jsval
  q_asArray :: "bool option"

fun toList :: "strs \<Rightarrow> string list" where
  \<comment> \<open>\<^verbatim>\<open>if (typeof x === 'string') x = [x]\<close>\<close>
  "toList (Str s) = [s]"
| "toList (Strs xs) = xs"

fun truthyStrs :: "strs option \<Rightarrow> bool" where
  "truthyStrs None = False"
| "truthyStrs (Some (Str s)) = (s \<noteq> [])"
| "truthyStrs (Some (Strs xs)) = True"

fun truthyNum :: "int option \<Rightarrow> bool" where
  "truthyNum None = False"
| "truthyNum (Some n) = (n \<noteq> 0)"

fun joinTypeName :: "joinType \<Rightarrow> string" where
  "joinTypeName LEFT = ''LEFT''"
| "joinTypeName RIGHT = ''RIGHT''"
| "joinTypeName INNER = ''INNER''"
| "joinTypeName OUTER = ''OUTER''"
| "joinTypeName CROSS = ''CROSS''"

definition selectItem :: "string \<Rightarrow> string" where
  "selectItem item =
     (if includesStr (toLowerCase item) '' as '' \<or> includesStr item ''('' \<or> item = ''*''
      then item else protectFieldName item)"

definition selectFrom :: "queryParams \<Rightarrow> string" where
  \<comment> \<open>\<^verbatim>\<open>SELECT ... FROM ...\<close>\<close>
  "selectFrom p =
     ''SELECT ''
     @ join '', '' (map selectItem (toList (case q_select p of None \<Rightarrow> Str ''*'' | Some s \<Rightarrow> s)))
     @ '' FROM ''
     @ (case q_from p of Str s \<Rightarrow> s | Strs xs \<Rightarrow> join '', '' xs)"

fun nthJoinType :: "joinTypes \<Rightarrow> nat \<Rightarrow> nat \<Rightarrow> string" where
  \<comment> \<open>\<^verbatim>\<open>joinType[i]\<close> after a single type is broadcast to \<^verbatim>\<open>n\<close> joins; past the end of a
      given list it is \<^verbatim>\<open>undefined\<close>\<close>
  "nthJoinType (JoinType t) n i = joinTypeName t"
| "nthJoinType (JoinTypes ts) n i = (if i < length ts then joinTypeName (ts ! i) else ''undefined'')"

definition joinClauses :: "queryParams \<Rightarrow> string" where
  "joinClauses p =
     (case q_join p of
        None \<Rightarrow> []
      | Some j \<Rightarrow>
          if (case j of Str s \<Rightarrow> s \<noteq> [] | Strs xs \<Rightarrow> xs \<noteq> [])
          then
            let js = toList j;
                jt = (case q_joinType p of None \<Rightarrow> JoinType LEFT | Some t \<Rightarrow> t)
            in concat (map (\<lambda>i. '' '' @ nthJoinType jt (length js) i @ '' JOIN '' @ js ! i)
                         [0..<length js])
          else [])"

definition whereGiven :: "queryParams \<Rightarrow> jsval" where
  \<comment> \<open>the destructuring default \<^verbatim>\<open>where = '1=1'\<close>\<close>
  "whereGiven p = (if q_where p = JUndefined then JStr ''1=1'' else q_where p)"

definition whereText :: "queryParams \<Rightarrow> jsval" where
  \<comment> \<open>the variable \<^verbatim>\<open>where\<close> after \<^verbatim>\<open>where = this.buildWhere(where)\<close>\<close>
  "whereText p = (if truthy (whereGiven p) then JStr (buildWhere (whereGiven p)) else whereGiven p)"

definition whereValues :: "queryParams \<Rightarrow> jsval" where
  \<comment> \<open>the variable \<^verbatim>\<open>whereParams\<close> after \<^verbatim>\<open>whereParams = this.buildWhereParams(where, whereParams)\<close>\<close>
  "whereValues p =
     (if truthy (whereGiven p) then JArr (buildWhereParams (whereGiven p) (q_whereParams p))
      else q_whereParams p)"

definition whereClause :: "queryParams \<Rightarrow> string" where
  "whereClause p =
     (if truthy (whereGiven p) then '' WHERE '' @ buildWhere (whereGiven p) else [])"

definition groupClause :: "queryParams \<Rightarrow> string" where
  "groupClause p =
     (if truthyStrs (q_group p)
      then '' GROUP BY '' @ join '', '' (map protectFieldName (toList (the (q_group p))))
      else [])"

definition orderItem :: "string \<Rightarrow> string" where
  "orderItem item =
     (let parts = splitSpaces (trim item)
      in if length parts > 1
         then protectFieldName (hd parts) @ '' '' @ join '' '' (tl parts)
         else protectFieldName item)"

definition orderClause :: "queryParams \<Rightarrow> string" where
  "orderClause p =
     (if truthyStrs (q_order p)
      then '' ORDER BY '' @ join '', '' (map orderItem (toList (the (q_order p))))
      else [])"

definition limitClause :: "queryParams \<Rightarrow> string" where
  \<comment> \<open>numbers are integers of the range in which JavaScript prints them in plain decimal\<close>
  "limitClause p =
     (if truthyNum (q_limit p)
      then '' LIMIT '' @ showInt (the (q_limit p))
           @ (if truthyNum (q_page p) \<and> the (q_page p) > 1
              then '' OFFSET '' @ showInt ((the (q_page p) - 1) * the (q_limit p))
              else if truthyNum (q_offset p) then '' OFFSET '' @ showInt (the (q_offset p))
              else [])
      else [])"

definition selectSql :: "queryParams \<Rightarrow> string" where
  \<comment> \<open>the variable \<^verbatim>\<open>sql\<close> of \<^verbatim>\<open>select\<close> when the chunk step is reached\<close>
  "selectSql p =
     selectFrom p @ joinClauses p @ whereClause p @ groupClause p @ orderClause p @ limitClause p"

definition commandOf :: "queryParams \<Rightarrow> command" where
  "commandOf p =
     (case q_command p of
        Some c \<Rightarrow> c
      | None \<Rightarrow> (if truthyNum (q_limit p) \<and> the (q_limit p) > 1 then FindMany else FindFirst))"

definition chunkOf :: "queryParams \<Rightarrow> chunkSel option" where
  \<comment> \<open>\<^verbatim>\<open>if (command === 'findAll' && chunk === undefined) chunk = 0\<close>\<close>
  "chunkOf p =
     (if commandOf p = FindAll \<and> q_chunk p = None then Some (ChunkIndex 0) else q_chunk p)"

fun firstRow :: "command \<Rightarrow> bool \<Rightarrow> result \<Rightarrow> result" where
  \<comment> \<open>\<^verbatim>\<open>if (command === 'findFirst' && result.length > 0) return asArray ? [result[0]] : result[0]\<close>;
      only an array has a length (a row with a column named \<^verbatim>\<open>length\<close> is outside the
      model)\<close>
  "firstRow FindFirst asArray (Rows (r # rs)) = (if asArray then Rows [r] else Row r)"
| "firstRow c asArray res = res"

definition runSelect ::
  "driver \<Rightarrow> world \<Rightarrow> queryParams \<Rightarrow> string \<Rightarrow> (error + result) \<times> world" where
  \<comment> \<open>the last lines of \<^verbatim>\<open>select\<close>: the data query and the shaping of its result\<close>
  "runSelect d w p sql =
     (case query d w sql
             (if truthy (whereValues p) then whereValues p else JArr [])
             (if truthy (q_options p) then q_options p else JObj []) of
        (Inl e, w') \<Rightarrow> (Inl e, w')
      | (Inr res, w') \<Rightarrow>
          (Inr (firstRow (commandOf p) (case q_asArray p of None \<Rightarrow> False | Some b \<Rightarrow> b) res), w'))"

definition select :: "driver \<Rightarrow> world \<Rightarrow> queryParams option \<Rightarrow> (error + result) \<times> world" where
  "select d w params =
     (if \<not> pool w then (Inr (ErrorObj ''pool is not initialized''), w)
      else
        case params of
          None \<Rightarrow> (Inr (ErrorObj ''params is required''), w)
        | Some p \<Rightarrow>
            (case chunkOf p of
               None \<Rightarrow> runSelect d w p (selectSql p)
             | Some chunk \<Rightarrow>
                 (case getChunk d w (selectSql p) chunk of
                    (Inl e, w') \<Rightarrow> (Inl e, w')
                  | (Inr (start, endId, totalCount), w') \<Rightarrow>
                      if chunk = ChunkCount then (Inr (Total totalCount), w')
                      else if start = JNull \<or> endId = JNull then (Inr (Total totalCount), w')
                      else
                        runSelect d w' p
                          (selectSql p
                           @ (if truthy (whereText p) then '' AND id BETWEEN ''
                              else '' WHERE id BETWEEN '')
                           @ toString start @ '' AND '' @ toString endId))))"

section \<open>The write statements\<close>

type_synonym obj = "(string \<times> jsval) list"   \<comment> \<open>\<^verbatim>\<open>Record<string, any>\<close>, keys in enumeration order\<close>

datatype records = One obj | Many "obj list"   \<comment> \<open>\<^verbatim>\<open>Record<string, any> | Record<string, any>[]\<close>\<close>

fun valuesArray :: "records \<Rightarrow> obj list" where
  \<comment> \<open>\<^verbatim>\<open>Array.isArray(values) ? values : [values]\<close>\<close>
  "valuesArray (One r) = [r]"
| "valuesArray (Many rs) = rs"

definition getProp :: "obj \<Rightarrow> string \<Rightarrow> jsval" where
  \<comment> \<open>\<^verbatim>\<open>record[key]\<close> on an own property\<close>
  "getProp r key = (case map_of r key of None \<Rightarrow> JUndefined | Some v \<Rightarrow> v)"

definition insertRecords :: "driver \<Rightarrow> world \<Rightarrow> string \<Rightarrow> records \<Rightarrow> (error + result) \<times> world" where
  "insertRecords d w table vals =
     (if valuesArray vals = []
      then (Inr (Upsert \<lparr>affectedRows = 0, insertId = 0, warningStatus = 0\<rparr>), w)
      else
        let keys = map fst (hd (valuesArray vals));
            protectedKeys = map protectFieldName keys;
            placeholders =
              join '','' (map (\<lambda>v. ''('' @ join '','' (map (\<lambda>k. ''?'') keys) @ '')'') (valuesArray vals));
            flatValues = concat (map (\<lambda>v. map (\<lambda>k. getProp v k) keys) (valuesArray vals));
            sql = ''INSERT INTO '' @ table @ '' ('' @ join '','' protectedKeys @ '') VALUES ''
                  @ placeholders
        in execute d w sql (JArr flatValues) (JArr []))"

record updateParams =
  u_table :: string
  u_values :: records
  u_where :: jsval
  u_whereParams :: jsval             \<comment> \<open>\<^verbatim>\<open>JUndefined\<close> when absent\<close>

definition update :: "driver \<Rightarrow> world \<Rightarrow> updateParams \<Rightarrow> (error + result) \<times> world" where
  "update d w params =
     (if \<not> truthy (u_where params) then (Inl (Error ''where is required''), w)
      else if valuesArray (u_values params) = [] then (Inl (Error ''values is required''), w)
      else
        let whereParams = buildWhereParams (u_where params) (u_whereParams params);
            whereSql = buildWhere (u_where params);
            sql = ''UPDATE '' @ u_table params @ '' SET ''
                  @ join '','' (map (\<lambda>key. protectFieldName key @ '' = ?'')
                                 (map fst (hd (valuesArray (u_values params)))))
                  @ '' WHERE '' @ whereSql;
            placeholders = concat (map (map snd) (valuesArray (u_values params)))
        in query d w sql (JArr (placeholders @ whereParams)) (JArr []))"

record objectUpdateOptions =
  o_table :: string
  o_values :: "obj list"
  o_whereField :: "string option"

definition objectUpdate ::
  "driver \<Rightarrow> world \<Rightarrow> objectUpdateOptions \<Rightarrow> (error + result) \<times> world" where
  \<comment> \<open>\<^verbatim>\<open>values\<close> is an array by its type; \<^verbatim>\<open>whereField in record\<close> is read on own properties;
      the \<^verbatim>\<open>catch\<close> logs and throws the same error again\<close>
  "objectUpdate d w options =
     (let table = o_table options;
          vals = o_values options;
          whereField = (case o_whereField options of None \<Rightarrow> ''id'' | Some f \<Rightarrow> f)
      in
        if table = [] \<or> whereField = [] \<or> vals = []
        then (Inl (Error ''Invalid parameters: table, values (array) and whereField are required''), w)
        else if list_ex (\<lambda>record. \<not> List.member (map fst record) whereField) vals
        then (Inl (MissingWhereField whereField), w)
        else
          let firstRecordFields = filter (\<lambda>field. field \<noteq> whereField) (map fst (hd vals));
              allHaveSameFields =
                list_all (\<lambda>record.
                    let fields = filter (\<lambda>field. field \<noteq> whereField) (map fst record)
                    in length fields = length firstRecordFields
                       \<and> list_all (\<lambda>field. List.member firstRecordFields field) fields)
                  vals
          in
            if \<not> allHaveSameFields
            then (Inl (Error ''All records must have the same fields''), w)
            else
              let fields = firstRecordFields;
                  setClause = join '', '' (map (\<lambda>field. field @ '' = ?'') fields);
                  querySql = ''UPDATE '' @ table @ '' SET '' @ setClause
                           @ '' WHERE '' @ whereField @ '' = ?'';
                  batchParams =
                    map (\<lambda>record. JArr (map (\<lambda>field. getProp record field) fields
                                         @ [getProp record whereField])) vals
              in batch d w querySql (JArr batchParams) (JArr []))"

section \<open>The windows of the specification\<close>

text \<open>
  The partition as the specification words it, over positions \<open>0, \<dots>, n - 1\<close> of the
  id sequence: the first window runs from \<open>0\<close> to \<open>min(20, n) - 1\<close>; the later windows run
  from \<open>i\<close> to \<open>min(i + 1000, n) - 1\<close> for \<open>i = 20, 1020, \<dots>\<close> below \<open>n\<close>. It is compared
  with the table that \<^const>\<open>buildChunkTable\<close> computes.
\<close>

definition specWindows :: "nat \<Rightarrow> (nat \<times> nat) list" where
  "specWindows n =
     (0, min 20 n - 1)
     # map (\<lambda>k. (20 + 1000 * k, min (20 + 1000 * k + 1000) n - 1)) [0..<(n - 20 + 999) div 1000]"

definition idsAt :: "row list \<Rightarrow> nat \<times> nat \<Rightarrow> jsval \<times> jsval" where
  "idsAt data se = (rowId (data ! fst se), rowId (data ! snd se))"

definition baseRequest :: "string \<Rightarrow> request" where
  \<comment> \<open>what \<^verbatim>\<open>this.query(sql)\<close> of \<^verbatim>\<open>getChunk\<close> sends: no values, no options\<close>
  "baseRequest sql =
     \<lparr>sqlText = sql, sqlOptions = JArr [], namedPlaceholders = False, bindValues = JUndefined\<rparr>"

section \<open>Concrete inputs\<close>

text \<open>
  A request, a pooled client and two states of the class, used where a statement is
  evaluated on a concrete input.
\<close>

definition exampleParams :: queryParams where
  "exampleParams =
     \<lparr>q_command = None, q_select = None, q_from = Str ''t'', q_join = None, q_joinType = None,
      q_where = JUndefined, q_whereParams = JUndefined, q_order = None, q_group = None,
      q_limit = None, q_page = None, q_offset = None, q_chunk = None, q_options = JUndefined,
      q_asArray = None\<rparr>"

definition exampleDriver :: "row list \<Rightarrow> driver" where
  "exampleDriver rs =
     \<lparr>queryReply = (\<lambda>req. Inr (Rows rs)),
      executeReply = (\<lambda>req. Inr (Upsert \<lparr>affectedRows = 1, insertId = 1, warningStatus = 0\<rparr>)),
      connectReply = None,
      batchReply = (\<lambda>req. Inl (SqlError ''Duplicate entry''))\<rparr>"

definition readyWorld :: world where
  "readyWorld = \<lparr>pool = True, trace = [], cache = Map.empty\<rparr>"

definition freshWorld :: world where
  "freshWorld = \<lparr>pool = False, trace = [], cache = Map.empty\<rparr>"

definition exampleRows :: "row list" where
  "exampleRows = [[(''id'', CNum 1)], [(''id'', CNum 2)], [(''id'', CNum 3)]]"

section \<open>Properties of the identifier protection\<close>

lemma split_parts_free: "p \<in> set (split d s) \<Longrightarrow> d \<notin> set p"
proof (induction s arbitrary: p)
  case Nil
  then show ?case by simp
next
  case (Cons c cs)
  obtain q qs where sp: "split d cs = q # qs"
    by (cases "split d cs") auto
  show ?case
    using Cons.prems Cons.IH [of q] Cons.IH [of p] sp
    by (auto split: if_splits)
qed

lemma split_free: "d \<notin> set s \<Longrightarrow> split d s = [s]"
  by (induction s) auto

lemma split_append_sep:
  "d \<notin> set p \<Longrightarrow> split d (p @ d # rest) = p # split d rest"
  by (induction p) auto

lemma split_join:
  "ps \<noteq> [] \<Longrightarrow> (\<And>p. p \<in> set ps \<Longrightarrow> d \<notin> set p) \<Longrightarrow> split d (join [d] ps) = ps"
proof (induction "[d]" ps rule: join.induct)
  case (1)
  then show ?case by simp
next
  case (2 x)
  then show ?case by (simp add: split_free)
next
  case (3 x y ys)
  then show ?case by (simp add: split_append_sep)
qed

lemma join_split: "join [d] (split d s) = s"
proof (induction s)
  case Nil
  then show ?case by simp
next
  case (Cons c cs)
  obtain q qs where sp: "split d cs = q # qs"
    by (cases "split d cs") auto
  show ?case
  proof (cases "c = d")
    case True
    then show ?thesis using Cons.IH sp by simp
  next
    case False
    then show ?thesis using Cons.IH sp by (cases qs) auto
  qed
qed

lemma set_join_iff:
  "d \<in> set (join [d] ps) \<longleftrightarrow> (2 \<le> length ps \<or> (\<exists>p \<in> set ps. d \<in> set p))"
  by (induction "[d]" ps rule: join.induct) auto

lemma split_length_ge2: "d \<in> set s \<Longrightarrow> 2 \<le> length (split d s)"
proof (induction s)
  case Nil
  then show ?case by simp
next
  case (Cons c cs)
  have "1 \<le> length (split d cs)"
    by (cases "split d cs") auto
  then show ?case
    using Cons by (cases "split d cs") (auto split: if_splits)
qed

lemma protect_plain:
  assumes "CHR ''.'' \<notin> set s"
  shows "protectFieldName s = s \<or> protectFieldName s = ''`'' @ s @ ''`''"
  using assms by (subst (1 2) protectFieldName.simps) (simp add: includesStr_single)

lemma quoted_wrap: "startsWith (''`'' @ s @ ''`'') ''`'' \<and> endsWith (''`'' @ s @ ''`'') ''`''"
  by (simp add: startsWith_def endsWith_def)

lemma protect_quoted:
  "startsWith s ''`'' \<Longrightarrow> endsWith s ''`'' \<Longrightarrow> protectFieldName s = s"
  by (subst protectFieldName.simps) simp

lemma protect_plain_idem:
  assumes "CHR ''.'' \<notin> set s"
  shows "protectFieldName (protectFieldName s) = protectFieldName s"
proof (cases "startsWith s ''`'' \<and> endsWith s ''`''")
  case True
  then show ?thesis by (simp add: protect_quoted)
next
  case False
  show ?thesis
  proof (cases "needsQuote s")
    case True
    then have "protectFieldName s = ''`'' @ s @ ''`''"
      using False assms by (subst protectFieldName.simps) (simp add: includesStr_single)
    then show ?thesis
      using quoted_wrap [of s] by (simp add: protect_quoted)
  next
    case nq: False
    then have "protectFieldName s = s"
      using False assms by (subst protectFieldName.simps) (simp add: includesStr_single)
    then show ?thesis by simp
  qed
qed

lemma protect_plain_free:
  assumes "CHR ''.'' \<notin> set s"
  shows "CHR ''.'' \<notin> set (protectFieldName s)"
  using protect_plain [OF assms] assms by auto

section \<open>Properties of the WHERE compiler\<close>

lemma questionMarks_append [simp]: "questionMarks (a @ b) = questionMarks a + questionMarks b"
  by (simp add: questionMarks_def)

lemma questionMarks_Nil [simp]: "questionMarks [] = 0"
  by (simp add: questionMarks_def)

lemma questionMarks_join:
  "questionMarks sep = 0 \<Longrightarrow> questionMarks (join sep xs) = sum_list (map questionMarks xs)"
  by (induction sep xs rule: join.induct) auto

lemma questionMarks_protect: "questionMarks (protectFieldName s) = questionMarks s"
proof (induction s rule: protectFieldName.induct)
  case (1 s)
  show ?case
  proof (cases "startsWith s ''`'' \<and> endsWith s ''`''")
    case True
    then show ?thesis by (simp add: protect_quoted)
  next
    case nq: False
    show ?thesis
    proof (cases "includesStr s ''.''")
      case True
      have "questionMarks (protectFieldName s)
            = questionMarks (join ''.'' (map protectFieldName (split (CHR ''.'') s)))"
        using nq True by (subst protectFieldName.simps) auto
      also have "\<dots> = sum_list (map questionMarks (map protectFieldName (split (CHR ''.'') s)))"
        by (rule questionMarks_join) (simp add: questionMarks_def)
      also have "\<dots> = sum_list (map questionMarks (split (CHR ''.'') s))"
        using "1.IH" nq True by (auto simp: comp_def intro!: arg_cong [where f = sum_list])
      also have "\<dots> = questionMarks (join ''.'' (split (CHR ''.'') s))"
        by (rule questionMarks_join [symmetric]) (simp add: questionMarks_def)
      also have "\<dots> = questionMarks s"
        by (simp add: join_split)
      finally show ?thesis .
    next
      case False
      then show ?thesis
        using nq by (subst protectFieldName.simps) (auto simp: questionMarks_def)
    qed
  qed
qed

lemma sum_list_plus_one:
  "sum_list (map (\<lambda>k. f k + 1) ks) = length ks + sum_list (map f ks)"
  for f :: "'a \<Rightarrow> nat"
  by (induction ks) simp_all

lemma questionMarks_equalsClauses:
  "questionMarks (equalsClauses obj)
   = length (objectKeys obj) + sum_list (map questionMarks (objectKeys obj))"
proof -
  have "questionMarks (equalsClauses obj)
        = sum_list (map questionMarks (map (\<lambda>key. protectFieldName key @ '' = ?'') (objectKeys obj)))"
    unfolding equalsClauses_def by (rule questionMarks_join) (simp add: questionMarks_def)
  also have "\<dots> = sum_list (map (\<lambda>key. questionMarks key + 1) (objectKeys obj))"
    by (simp add: comp_def questionMarks_protect) (simp add: questionMarks_def)
  also have "\<dots> = length (objectKeys obj) + sum_list (map questionMarks (objectKeys obj))"
    by (rule sum_list_plus_one)
  finally show ?thesis .
qed


lemma objectKeys_values_length: "length (objectValues v) = length (objectKeys v)"
  by (cases v) simp_all

lemma equalsClauses_JObj: "equalsClauses (JObj kvs) = mappingClause kvs"
  by (simp add: equalsClauses_def mappingClause_def comp_def)

lemma questionMarks_filter_nonempty:
  "sum_list (map questionMarks (filter (\<lambda>s. s \<noteq> []) xs)) = sum_list (map questionMarks xs)"
  by (induction xs) auto

lemma mapping_clauses:
  "filter (\<lambda>s. s \<noteq> []) (map (\<lambda>m. orClause (nullable m)) ms)
   = map (\<lambda>kvs. CHR ''('' # mappingClause kvs @ '')'') (present ms)"
proof (induction ms)
  case Nil
  then show ?case by simp
next
  case (Cons m ms)
  then show ?case by (cases m) (simp_all add: orClause_def equalsClauses_JObj)
qed

lemma mapping_values:
  "concat (map (\<lambda>m. valuesOf (nullable m)) ms) = concat (map (map snd) (present ms))"
proof (induction ms)
  case Nil
  then show ?case by simp
next
  case (Cons m ms)
  then show ?case by (cases m) (simp_all add: valuesOf_def)
qed

lemma first_mapping_list:
  "ms \<noteq> [] \<Longrightarrow>
   isObject (first (JArr (map nullable ms))) \<and> \<not> isString (first (JArr (map nullable ms)))"
proof (cases ms)
  case Nil
  assume "ms \<noteq> []"
  with Nil show ?thesis by simp
next
  case (Cons m ms')
  then show ?thesis by (cases m) (simp_all add: first_def)
qed

lemma buildWhere_mapping_list:
  "buildWhere (JArr (map nullable ms))
   = join '' OR '' (map (\<lambda>kvs. CHR ''('' # mappingClause kvs @ '')'') (present ms))"
proof (cases "ms = []")
  case True
  then show ?thesis by (simp add: buildWhere_def)
next
  case False
  then show ?thesis
    unfolding buildWhere_def using first_mapping_list [OF False]
    by (simp add: comp_def mapping_clauses)
qed

lemma buildWhereParams_mapping_list:
  "buildWhereParams (JArr (map nullable ms)) JUndefined = concat (map (map snd) (present ms))"
proof (cases "ms = []")
  case True
  then show ?thesis by (simp add: buildWhereParams_def)
next
  case False
  then show ?thesis
    unfolding buildWhereParams_def using first_mapping_list [OF False]
    by (simp add: comp_def mapping_values)
qed

lemma questionMarks_mappingClause:
  "questionMarks (mappingClause kvs) = length kvs + sum_list (map (\<lambda>kv. questionMarks (fst kv)) kvs)"
  using questionMarks_equalsClauses [of "JObj kvs"]
  by (simp add: equalsClauses_JObj comp_def)

lemma questionMarks_paren:
  "questionMarks (CHR ''('' # s @ '')'') = questionMarks s"
  by (simp add: questionMarks_def)

lemma callerMarks_present:
  "sum_list (map (\<lambda>kvs. questionMarks (CHR ''('' # mappingClause kvs @ '')'')) (present ms))
   = length (concat (map (map snd) (present ms))) + callerMarks (MappingList ms)"
proof (induction ms)
  case Nil
  then show ?case by simp
next
  case (Cons m ms)
  then show ?case
    by (cases m) (simp_all add: questionMarks_paren questionMarks_mappingClause)
qed

section \<open>Properties of the statements\<close>

lemma clauses_ignore_where:
  "selectFrom (p\<lparr>q_where := x\<rparr>) = selectFrom p"
  "joinClauses (p\<lparr>q_where := x\<rparr>) = joinClauses p"
  "groupClause (p\<lparr>q_where := x\<rparr>) = groupClause p"
  "orderClause (p\<lparr>q_where := x\<rparr>) = orderClause p"
  "limitClause (p\<lparr>q_where := x\<rparr>) = limitClause p"
  by (simp_all add: selectFrom_def joinClauses_def groupClause_def orderClause_def
        limitClause_def split: option.split)

lemma batch_releases_on_success:
  "pool w \<Longrightarrow> connectReply d = None \<Longrightarrow>
   batchReply d \<lparr>sqlText = sql, sqlOptions = params, namedPlaceholders = False, bindValues = vals\<rparr> = Inr res \<Longrightarrow>
   batch d w sql vals params
     = (Inr res, w\<lparr>trace := trace w @ [Acquire, ConnBatch \<lparr>sqlText = sql, sqlOptions = params, namedPlaceholders = False, bindValues = vals\<rparr>, Release]\<rparr>)"
  by (simp add: batch_def issue_def)

lemma batch_keeps_connection_on_failure:
  "pool w \<Longrightarrow> connectReply d = None \<Longrightarrow>
   batchReply d \<lparr>sqlText = sql, sqlOptions = params, namedPlaceholders = False, bindValues = vals\<rparr> = Inl e \<Longrightarrow>
   batch d w sql vals params
     = (Inl e, w\<lparr>trace := trace w @ [Acquire, ConnBatch \<lparr>sqlText = sql, sqlOptions = params, namedPlaceholders = False, bindValues = vals\<rparr>]\<rparr>)"
  by (simp add: batch_def issue_def)

section \<open>Properties of the chunk planner\<close>

lemma getChunk_hit:
  "cache w (''chunk'' @ sql) = Some chunkTable \<Longrightarrow>
   getChunk d w sql chunk = (chunkAnswer chunkTable chunk, w)"
  by (simp add: getChunk_def)

lemma getChunk_miss:
  "pool w \<Longrightarrow> cache w (''chunk'' @ sql) = None \<Longrightarrow>
   getChunk d w sql chunk =
     (case queryReply d (baseRequest sql) of
        Inl e \<Rightarrow> (Inl e, issue (PoolQuery (baseRequest sql)) w)
      | Inr res \<Rightarrow>
          (case buildChunkTable (unwrapOne sql res) of
             Inl e \<Rightarrow> (Inl e, issue (PoolQuery (baseRequest sql)) w)
           | Inr chunkTable \<Rightarrow>
               (chunkAnswer chunkTable chunk,
                (issue (PoolQuery (baseRequest sql)) w)
                  \<lparr>cache := (cache w)(''chunk'' @ sql \<mapsto> chunkTable)\<rparr>)))"
  by (simp add: getChunk_def query_def baseRequest_def issue_def Let_def
        split: sum.split)

lemma later_window_count: "20 + 1000 * k < n \<longleftrightarrow> k < (n - 20 + 999) div 1000"
  for k n :: nat
  by arith

lemma upt_glue: "i \<le> j \<Longrightarrow> j \<le> k \<Longrightarrow> [i..<j] @ [j..<k] = [i..<k]"
  for i j k :: nat
  using upt_add_eq_append [of i j "k - j"] by simp

lemma nth_later:
  "k < K \<Longrightarrow> (w # map f [0..<K]) ! Suc k = f k"
  by simp

lemma chunkLoop_windows:
  "chunkLoop data (20 + 1000 * k) t
   = t @ map (\<lambda>j. idsAt data (20 + 1000 * j, min (20 + 1000 * j + 1000) (length data) - 1))
           [k..<(length data - 20 + 999) div 1000]"
proof (induction "length data - (20 + 1000 * k)" arbitrary: k t rule: less_induct)
  case less
  let ?n = "length data"
  let ?K = "(?n - 20 + 999) div 1000"
  let ?f = "\<lambda>j. idsAt data (20 + 1000 * j, min (20 + 1000 * j + 1000) ?n - 1)"
  show ?case
  proof (cases "20 + 1000 * k < ?n")
    case False
    then have "\<not> k < ?K"
      using later_window_count [of k ?n] by simp
    then show ?thesis
      using False by (subst chunkLoop.simps) simp
  next
    case True
    then have kK: "k < ?K"
      using later_window_count [of k ?n] by simp
    have end_eq: "(if 20 + 1000 * k + 1000 - 1 < ?n - 1 then 20 + 1000 * k + 1000 - 1 else ?n - 1)
                  = min (20 + 1000 * k + 1000) ?n - 1"
      using True by auto
    have step: "chunkLoop data (20 + 1000 * k) t
                = chunkLoop data (20 + 1000 * Suc k) (t @ [?f k])"
      using True end_eq by (subst chunkLoop.simps) (simp add: idsAt_def add.commute add.left_commute)
    have "chunkLoop data (20 + 1000 * Suc k) (t @ [?f k]) = (t @ [?f k]) @ map ?f [Suc k..<?K]"
      using True by (intro less) simp
    also have "\<dots> = t @ map ?f [k..<?K]"
      using kK by (simp add: upt_conv_Cons)
    finally show ?thesis
      using step by simp
  qed
qed

lemma buildChunkTable_windows:
  assumes "data \<noteq> []" and "rowId (hd data) \<noteq> JUndefined"
  shows "buildChunkTable (Rows data) = Inr (map (idsAt data) (specWindows (length data)))"
proof -
  obtain r rs where d: "data = r # rs"
    using assms(1) by (cases data) auto
  have first: "(if length data > 20 then 20 - 1 else length data - 1) = min 20 (length data) - 1"
    by auto
  have "buildChunkTable (Rows data)
        = Inr (chunkLoop data (20 + 1000 * 0)
                 [(rowId (data ! 0), rowId (data ! (min 20 (length data) - 1)))])"
    using assms(2) first unfolding d by (simp add: Let_def)
  then show ?thesis
    unfolding chunkLoop_windows specWindows_def by (simp add: idsAt_def comp_def)
qed

lemma concat_blocks:
  "concat (map (\<lambda>k. [a + c * k..<min (a + c * k + c) n]) [0..<K]) = [a..<min (a + c * K) n]"
  if "a \<le> n" for a c n K :: nat
proof (induction K)
  case 0
  then show ?case using that by simp
next
  case (Suc K)
  have "[a..<min (a + c * K) n] @ [a + c * K..<min (a + c * K + c) n]
        = [a..<min (a + c * Suc K) n]"
  proof (cases "a + c * K \<le> n")
    case True
    then have "[a..<a + c * K] @ [a + c * K..<min (a + c * K + c) n] = [a..<min (a + c * K + c) n]"
      by (intro upt_glue) auto
    then show ?thesis
      using True by (simp add: min_def add.commute add.left_commute algebra_simps)
  next
    case False
    then show ?thesis
      by (simp add: min_def)
  qed
  then show ?case
    using Suc by simp
qed

lemma specWindows_cover:
  assumes "1 \<le> n"
  shows "concat (map (\<lambda>(s, e). [s..<Suc e]) (specWindows n)) = [0..<n]"
proof (cases "n \<le> 20")
  case True
  then have K: "(n - 20 + 999) div 1000 = 0" and m: "min 20 n = n"
    by simp_all
  obtain m where n: "n = Suc m"
    using assms by (cases n) auto
  show ?thesis
    unfolding specWindows_def K m by (simp add: n)
next
  case False
  let ?K = "(n - 20 + 999) div 1000"
  have ends: "\<And>k. Suc (min (20 + 1000 * k + 1000) n - 1) = min (20 + 1000 * k + 1000) n"
    using False by (simp add: min_def)
  have head: "Suc (min 20 n - 1) = 20"
    using False by simp
  have "concat (map (\<lambda>(s, e). [s..<Suc e]) (specWindows n))
        = [0..<Suc (min 20 n - 1)]
          @ concat (map (\<lambda>k. [20 + 1000 * k..<Suc (min (20 + 1000 * k + 1000) n - 1)]) [0..<?K])"
    unfolding specWindows_def by (simp add: comp_def del: upt_Suc)
  also have "\<dots> = [0..<20] @ concat (map (\<lambda>k. [20 + 1000 * k..<min (20 + 1000 * k + 1000) n]) [0..<?K])"
    unfolding head ends ..
  also have "\<dots> = [0..<20] @ [20..<min (20 + 1000 * ?K) n]"
    using False by (subst concat_blocks) auto
  also have "min (20 + 1000 * ?K) n = n"
    using False by (simp add: min_def) arith
  also have "[0..<20] @ [20..<n] = [0..<n]"
    using False by (intro upt_glue) auto
  finally show ?thesis .
qed

lemma specWindows_first:
  "specWindows n ! 0 = (0, min 20 n - 1)"
  by (simp add: specWindows_def)

lemma specWindows_later:
  assumes "k < (n - 20 + 999) div 1000"
  shows "specWindows n ! Suc k = (20 + 1000 * k, min (20 + 1000 * k + 1000) n - 1)"
  unfolding specWindows_def using assms by (rule nth_later)

lemma specWindows_full_block:
  assumes "Suc k < (n - 20 + 999) div 1000"
  shows "specWindows n ! Suc k = (20 + 1000 * k, 20 + 1000 * k + 999)"
proof -
  have "20 + 1000 * Suc k < n"
    using assms later_window_count [of "Suc k" n] by simp
  then have "min (20 + 1000 * k + 1000) n - 1 = 20 + 1000 * k + 999"
    by (simp add: min_def)
  moreover have "k < (n - 20 + 999) div 1000"
    using assms by simp
  ultimately show ?thesis
    using specWindows_later [of k n] by simp
qed

lemma specWindows_length: "length (specWindows n) = Suc ((n - 20 + 999) div 1000)"
  by (simp add: specWindows_def)

lemma select_getChunk_error:
  "pool w \<Longrightarrow> chunkOf p = Some c \<Longrightarrow> fst (getChunk d w (selectSql p) c) = Inl e \<Longrightarrow>
   fst (select d w (Some p)) = Inl e"
  by (cases "getChunk d w (selectSql p) c") (auto simp: select_def)

lemma unwrapOne_rows:
  "\<not> (length rs = 1 \<and> hasLimitOne sql) \<Longrightarrow> unwrapOne sql (Rows rs) = Rows rs"
proof (cases rs)
  case Nil
  then show ?thesis by simp
next
  case (Cons r rs')
  assume "\<not> (length rs = 1 \<and> hasLimitOne sql)"
  then show ?thesis
    using Cons by (cases rs') simp_all
qed

lemma buildChunkTable_no_id:
  "rs \<noteq> [] \<Longrightarrow> rowId (hd rs) = JUndefined \<Longrightarrow>
   buildChunkTable (Rows rs) = Inl (Error ''id is required'')"
  by (cases rs) simp_all

lemma getChunk_builds_windows:
  assumes "pool w" and "cache w (''chunk'' @ sql) = None"
    and "queryReply d (baseRequest sql) = Inr (Rows data)"
    and "data \<noteq> []" and "rowId (hd data) \<noteq> JUndefined"
    and "\<not> (length data = 1 \<and> hasLimitOne sql)"
  shows "getChunk d w sql chunk
         = (chunkAnswer (map (idsAt data) (specWindows (length data))) chunk,
            (issue (PoolQuery (baseRequest sql)) w)
              \<lparr>cache := (cache w)(''chunk'' @ sql \<mapsto> map (idsAt data) (specWindows (length data)))\<rparr>)"
  using assms
  by (simp add: getChunk_miss unwrapOne_rows buildChunkTable_windows)

lemma specWindows_bounds:
  assumes "1 \<le> n" and "se \<in> set (specWindows n)"
  shows "fst se \<le> snd se \<and> snd se < n"
proof -
  have "se = (0, min 20 n - 1)
        \<or> (\<exists>k < (n - 20 + 999) div 1000. se = (20 + 1000 * k, min (20 + 1000 * k + 1000) n - 1))"
    using assms(2) by (auto simp: specWindows_def)
  then show ?thesis
  proof
    assume "se = (0, min 20 n - 1)"
    then show ?thesis using assms(1) by auto
  next
    assume "\<exists>k < (n - 20 + 999) div 1000. se = (20 + 1000 * k, min (20 + 1000 * k + 1000) n - 1)"
    then obtain k where k: "k < (n - 20 + 999) div 1000"
      and se: "se = (20 + 1000 * k, min (20 + 1000 * k + 1000) n - 1)"
      by blast
    have "20 + 1000 * k < n"
      using k later_window_count [of k n] by simp
    then show ?thesis
      using se by auto
  qed
qed

section \<open>The claims\<close>

text \<open>
  Claim C1, as amended. For every WhereSpec of the four shapes (raw string, list of raw
  strings, field-to-value mapping, list of mappings, a mapping of the list possibly
  \<^verbatim>\<open>null\<close>) and no explicit parameter override, the number of \<^verbatim>\<open>?\<close> characters in the
  text of \<^const>\<open>buildWhere\<close> is the length of the vector of \<^const>\<open>buildWhereParams\<close>
  plus the number of \<^verbatim>\<open>?\<close> characters the caller wrote in the raw fragments and in
  the mapping keys (\<^const>\<open>callerMarks\<close>). The two numbers agree exactly when the
  caller's fragments and keys hold no \<^verbatim>\<open>?\<close>.
\<close>

theorem where_placeholders_vs_params:
  "questionMarks (buildWhere (whereJs w))
     = length (buildWhereParams (whereJs w) JUndefined) + callerMarks w
   \<and> (questionMarks (buildWhere (whereJs w)) = length (buildWhereParams (whereJs w) JUndefined)
        \<longleftrightarrow> callerMarks w = 0)"
proof -
  have eq: "questionMarks (buildWhere (whereJs w))
     = length (buildWhereParams (whereJs w) JUndefined) + callerMarks w"
  proof (cases w)
    case (Raw s)
    then show ?thesis
      by (simp add: buildWhere_def buildWhereParams_def first_def) (simp add: questionMarks_def)
  next
    case (RawList xs)
    show ?thesis
    proof (cases xs)
      case Nil
      then show ?thesis
        using RawList by (simp add: buildWhere_def buildWhereParams_def first_def)
    next
      case (Cons x xs')
      have "questionMarks (join '' AND '' xs) = sum_list (map questionMarks xs)"
        by (rule questionMarks_join) (simp add: questionMarks_def)
      then show ?thesis
        using RawList Cons
        by (simp add: buildWhere_def buildWhereParams_def first_def joinArr_def comp_def)
    qed
  next
    case (Mapping kvs)
    then show ?thesis
      by (simp add: buildWhere_def buildWhereParams_def questionMarks_equalsClauses comp_def)
  next
    case (MappingList ms)
    have sep: "questionMarks '' OR '' = 0"
      by (simp add: questionMarks_def)
    have "questionMarks (buildWhere (JArr (map nullable ms)))
          = sum_list (map (\<lambda>kvs. questionMarks (CHR ''('' # mappingClause kvs @ '')'')) (present ms))"
      unfolding buildWhere_mapping_list by (simp add: questionMarks_join [OF sep] comp_def)
    then show ?thesis
      using MappingList by (simp add: buildWhereParams_mapping_list callerMarks_present)
  qed
  then show ?thesis by simp
qed

text \<open>
  Witness for C1: the mapping \<^verbatim>\<open>{a: 1, b: 2}\<close> compiles to two placeholders and two
  parameters.
\<close>

theorem where_placeholders_vs_params_witness:
  "questionMarks (buildWhere (whereJs (Mapping [(''a'', JNum 1), (''b'', JNum 2)]))) = 2
   \<and> length (buildWhereParams (whereJs (Mapping [(''a'', JNum 1), (''b'', JNum 2)])) JUndefined) = 2"
  using where_placeholders_vs_params [of "Mapping [(''a'', JNum 1), (''b'', JNum 2)]"]
  by (simp add: buildWhereParams_def questionMarks_def)

text \<open>
  Counterexample to C1 as stated: the raw string \<^verbatim>\<open>id = ?\<close> is returned verbatim, with one
  placeholder, and without an override the parameter vector is empty.
\<close>

theorem where_parity_counterexample:
  "questionMarks (buildWhere (whereJs (Raw ''id = ?'')))
   \<noteq> length (buildWhereParams (whereJs (Raw ''id = ?'')) JUndefined)"
  by (simp add: buildWhere_def buildWhereParams_def questionMarks_def)

text \<open>
  Claim C2 says that for every base query returning \<open>N \<ge> 1\<close> ids the window list of
  \<^const>\<open>getChunk\<close> partitions the positions \<open>0, \<dots>, N - 1\<close>: a first window of
  \<open>min(20, N)\<close> positions, then windows of 1000 positions from position 20 on, the last one
  possibly shorter. Whenever \<^const>\<open>query\<close> hands \<^const>\<open>getChunk\<close> the rows as an array
  this is so: the table is the partition of the specification (\<open>getChunk_builds_windows\<close>,
  \<open>buildChunkTable_windows\<close>), which covers the positions in order without gap or overlap
  (\<open>specWindows_cover\<close>, \<open>specWindows_bounds\<close>) with the sizes claimed (\<open>specWindows_first\<close>,
  \<open>specWindows_later\<close>, \<open>specWindows_full_block\<close>).

  But \<^const>\<open>query\<close> unwraps a result of one row when the SQL text matches \<^verbatim>\<open>limit 1\<close>, and
  \<^const>\<open>getChunk\<close> then indexes a row object instead of an array. Evaluated on the base query
  of \<^verbatim>\<open>select({ from: 't', limit: 1, chunk: 0 })\<close> returning the one id 5: no window list is
  computed, and the call throws a TypeError.
\<close>

theorem getChunk_single_row_limit_one:
  "fst (getChunk (exampleDriver [[(''id'', CNum 5)]]) readyWorld
          ''SELECT * FROM t WHERE 1=1 LIMIT 1'' (ChunkIndex 0))
     = Inl TypeError
   \<and> fst (select (exampleDriver [[(''id'', CNum 5)]]) readyWorld
            (Some (exampleParams\<lparr>q_limit := Some 1, q_chunk := Some (ChunkIndex 0)\<rparr>)))
     = Inl TypeError"
proof -
  let ?p = "exampleParams\<lparr>q_limit := Some 1, q_chunk := Some (ChunkIndex 0)\<rparr>"
  let ?sql = "''SELECT * FROM t WHERE 1=1 LIMIT 1''"
  have sql: "selectSql ?p = ?sql"
    by code_simp
  have lim: "hasLimitOne ?sql"
    by code_simp
  have chunk: "chunkOf ?p = Some (ChunkIndex 0)"
    by (simp add: chunkOf_def)
  have g: "fst (getChunk (exampleDriver [[(''id'', CNum 5)]]) readyWorld ?sql (ChunkIndex 0))
           = Inl TypeError"
    using lim
    by (simp add: getChunk_def query_def readyWorld_def exampleDriver_def issue_def)
  have "pool readyWorld"
    by (simp add: readyWorld_def)
  then have "fst (select (exampleDriver [[(''id'', CNum 5)]]) readyWorld (Some ?p)) = Inl TypeError"
    using chunk g by (intro select_getChunk_error [where c = "ChunkIndex 0"]) (simp_all add: sql)
  then show ?thesis
    using g by simp
qed

text \<open>
  Claim C3 says that \<^const>\<open>batch\<close> releases its connection on the success path and on the
  path where the batch call of the driver fails. The code releases after the \<^verbatim>\<open>await\<close> of
  \<^verbatim>\<open>conn.batch\<close>, outside any \<^verbatim>\<open>finally\<close>: evaluated on a driver whose batch call fails, the
  calls made are the acquisition and the batch, and no release follows.
\<close>

theorem batch_failure_no_release:
  "fst (batch (exampleDriver []) readyWorld ''INSERT INTO t (id) VALUES (?)''
          (JArr [JArr [JNum 1], JArr [JNum 1]]) (JArr []))
     = Inl (SqlError ''Duplicate entry'')
   \<and> trace (snd (batch (exampleDriver []) readyWorld ''INSERT INTO t (id) VALUES (?)''
          (JArr [JArr [JNum 1], JArr [JNum 1]]) (JArr [])))
     = [Acquire,
        ConnBatch \<lparr>sqlText = ''INSERT INTO t (id) VALUES (?)'', sqlOptions = JArr [],
                   namedPlaceholders = False, bindValues = JArr [JArr [JNum 1], JArr [JNum 1]]\<rparr>]"
  by (simp add: batch_def issue_def exampleDriver_def readyWorld_def)

text \<open>
  Claim C4. For every field-to-value mapping and no explicit parameter override,
  \<^const>\<open>buildWhere\<close> emits \<^verbatim>\<open>protect(key) = ?\<close> for each key in order, joined with
  \<^verbatim>\<open> AND \<close>, and \<^const>\<open>buildWhereParams\<close> returns the values of the mapping in the same
  order.
\<close>

theorem mapping_where:
  "buildWhere (JObj kvs) = join '' AND '' (map (\<lambda>kv. protectFieldName (fst kv) @ '' = ?'') kvs)
   \<and> buildWhereParams (JObj kvs) JUndefined = map snd kvs"
  by (simp add: buildWhere_def buildWhereParams_def equalsClauses_def comp_def)

text \<open>
  Witness for C4: \<^verbatim>\<open>{a: 1, b: 2}\<close> compiles to \<^verbatim>\<open>a = ? AND b = ?\<close> with the parameters
  \<^verbatim>\<open>[1, 2]\<close>.
\<close>

theorem mapping_where_witness:
  "buildWhere (JObj [(''a'', JNum 1), (''b'', JNum 2)]) = ''a = ? AND b = ?''
   \<and> buildWhereParams (JObj [(''a'', JNum 1), (''b'', JNum 2)]) JUndefined = [JNum 1, JNum 2]"
proof -
  have a: "protectFieldName ''a'' = ''a''" and b: "protectFieldName ''b'' = ''b''"
    by code_simp+
  show ?thesis
    using mapping_where [of "[(''a'', JNum 1), (''b'', JNum 2)]"] a b by simp
qed



text \<open>
  Claim C6. For every identifier string \<open>x\<close>, protecting twice is protecting once:
  \<^verbatim>\<open>protectFieldName(protectFieldName(x)) = protectFieldName(x)\<close>. The statement has no
  side condition, so it covers quoted tokens, dotted paths, reserved words and tokens with
  characters outside \<^verbatim>\<open>[A-Za-z0-9_]\<close>.
\<close>

theorem protectFieldName_idempotent:
  "protectFieldName (protectFieldName x) = protectFieldName x"
proof (cases "startsWith x ''`'' \<and> endsWith x ''`''")
  case True
  then show ?thesis by (simp add: protect_quoted)
next
  case nq: False
  show ?thesis
  proof (cases "CHR ''.'' \<in> set x")
    case False
    then show ?thesis by (rule protect_plain_idem)
  next
    case True
    define ps where "ps = split (CHR ''.'') x"
    define qs where "qs = map protectFieldName ps"
    have free: "\<And>p. p \<in> set ps \<Longrightarrow> CHR ''.'' \<notin> set p"
      unfolding ps_def by (rule split_parts_free)
    have len: "2 \<le> length ps"
      unfolding ps_def using True by (rule split_length_ge2)
    have qfree: "\<And>q. q \<in> set qs \<Longrightarrow> CHR ''.'' \<notin> set q"
      unfolding qs_def using free protect_plain_free by auto
    have qne: "qs \<noteq> []"
      using len unfolding qs_def by auto
    have px: "protectFieldName x = join ''.'' qs"
      using nq True unfolding qs_def ps_def
      by (subst protectFieldName.simps) (auto simp: includesStr_single)
    have dot: "CHR ''.'' \<in> set (join ''.'' qs)"
      using len unfolding qs_def by (simp add: set_join_iff)
    have sp: "split (CHR ''.'') (join ''.'' qs) = qs"
      using qne qfree by (rule split_join)
    have idem: "map protectFieldName qs = qs"
      unfolding qs_def using free by (simp add: protect_plain_idem)
    show ?thesis
    proof (cases "startsWith (join ''.'' qs) ''`'' \<and> endsWith (join ''.'' qs) ''`''")
      case True
      then show ?thesis using px by (simp add: protect_quoted)
    next
      case False
      then have "protectFieldName (join ''.'' qs) = join ''.'' (map protectFieldName qs)"
        using dot sp by (subst protectFieldName.simps) (auto simp: includesStr_single)
      then show ?thesis using px idem by simp
    qed
  qed
qed

text \<open>
  Witness for C6: a dotted path with a reserved word, a part with a blank, a quoted part
  and a plain part.
\<close>

theorem protectFieldName_idempotent_witness:
  "protectFieldName ''order.a b.`x`.name'' = ''`order`.`a b`.`x`.name''
   \<and> protectFieldName ''`order`.`a b`.`x`.name'' = ''`order`.`a b`.`x`.name''"
proof -
  have "protectFieldName ''order.a b.`x`.name'' = ''`order`.`a b`.`x`.name''"
    by code_simp
  then show ?thesis
    using protectFieldName_idempotent [of "''order.a b.`x`.name''"] by simp
qed

text \<open>
  Claim C7, as amended. With an empty array of records, \<^const>\<open>update\<close> and
  \<^const>\<open>objectUpdate\<close> throw an error before anything is sent to the client
  (\<^const>\<open>update\<close> throws \<^verbatim>\<open>where is required\<close> instead when its WHERE is empty), and
  \<^verbatim>\<open>insert\<close> throws nothing: it returns
  \<^verbatim>\<open>{ affectedRows: 0, insertId: 0, warningStatus: 0 }\<close>, also without sending anything.
  The state, with the calls made on the client, is unchanged in all three.
\<close>

theorem empty_values:
  "update d w (params\<lparr>u_values := Many []\<rparr>)
     = (Inl (Error (if truthy (u_where params) then ''values is required''
                    else ''where is required'')), w)
   \<and> objectUpdate d w (options\<lparr>o_values := []\<rparr>)
     = (Inl (Error ''Invalid parameters: table, values (array) and whereField are required''), w)
   \<and> insertRecords d w table (Many [])
     = (Inr (Upsert \<lparr>affectedRows = 0, insertId = 0, warningStatus = 0\<rparr>), w)"
  by (simp add: update_def objectUpdate_def insertRecords_def)

text \<open>
  Witness for C7: the two throwing calls on concrete requests.
\<close>

theorem empty_values_witness:
  "update (exampleDriver []) readyWorld
      \<lparr>u_table = ''users'', u_values = Many [], u_where = JStr ''id = 1'', u_whereParams = JUndefined\<rparr>
     = (Inl (Error ''values is required''), readyWorld)
   \<and> objectUpdate (exampleDriver []) readyWorld
      \<lparr>o_table = ''users'', o_values = [], o_whereField = None\<rparr>
     = (Inl (Error ''Invalid parameters: table, values (array) and whereField are required''),
        readyWorld)"
  using empty_values [of "exampleDriver []" readyWorld
      "\<lparr>u_table = ''users'', u_values = Many [], u_where = JStr ''id = 1'', u_whereParams = JUndefined\<rparr>"
      "\<lparr>o_table = ''users'', o_values = [], o_whereField = None\<rparr>"]
  by simp

text \<open>
  Counterexample to C7 as stated: \<^verbatim>\<open>insert('users', [])\<close> returns a result and raises no
  error.
\<close>

theorem insert_empty_counterexample:
  "insertRecords (exampleDriver []) readyWorld ''users'' (Many [])
     = (Inr (Upsert \<lparr>affectedRows = 0, insertId = 0, warningStatus = 0\<rparr>), readyWorld)"
  by (simp add: insertRecords_def)

text \<open>
  Claim C8, as amended. For a \<^const>\<open>select\<close> on an initialized pool whose chunk selector is
  the count-only sentinel \<^verbatim>\<open>'?'\<close>: on a cache hit nothing is sent to the client and the call
  returns the number of windows of the cached table; on a cache miss exactly one query is
  sent, the one for the base SQL that builds the id list, and never the data query of the
  assembled SELECT. On a miss the call throws the error of the client when that query fails;
  when the query returns its rows as an array of \<open>N \<ge> 1\<close> rows, the call throws
  \<^verbatim>\<open>id is required\<close> if the first row has no id and returns the number of windows of the
  partition of \<open>N\<close> positions otherwise.
\<close>

theorem select_count_only:
  assumes "pool w" and "q_chunk p = Some ChunkCount"
  shows "(cache w (''chunk'' @ selectSql p) = Some chunkTable \<longrightarrow>
            select d w (Some p) = (Inr (Total (length chunkTable)), w))
       \<and> (cache w (''chunk'' @ selectSql p) = None \<longrightarrow>
            trace (snd (select d w (Some p)))
              = trace w @ [PoolQuery (baseRequest (selectSql p))]
            \<and> (queryReply d (baseRequest (selectSql p)) = Inl e \<longrightarrow>
                 fst (select d w (Some p)) = Inl e)
            \<and> (queryReply d (baseRequest (selectSql p)) = Inr (Rows rs) \<and> rs \<noteq> []
                 \<and> \<not> (length rs = 1 \<and> hasLimitOne (selectSql p)) \<longrightarrow>
                 fst (select d w (Some p))
                   = (if rowId (hd rs) = JUndefined then Inl (Error ''id is required'')
                      else Inr (Total (length (specWindows (length rs)))))))"
proof -
  let ?sql = "selectSql p"
  have chunk: "chunkOf p = Some ChunkCount"
    using assms(2) by (simp add: chunkOf_def)
  have hit: "select d w (Some p) = (Inr (Total (length chunkTable)), w)"
    if "cache w (''chunk'' @ ?sql) = Some chunkTable"
    using that assms(1) chunk by (simp add: select_def getChunk_hit)
  have miss: "select d w (Some p)
      = (case queryReply d (baseRequest ?sql) of
           Inl e \<Rightarrow> (Inl e, issue (PoolQuery (baseRequest ?sql)) w)
         | Inr res \<Rightarrow>
             (case buildChunkTable (unwrapOne ?sql res) of
                Inl e \<Rightarrow> (Inl e, issue (PoolQuery (baseRequest ?sql)) w)
              | Inr chunkTable \<Rightarrow>
                  (Inr (Total (length chunkTable)),
                   (issue (PoolQuery (baseRequest ?sql)) w)
                     \<lparr>cache := (cache w)(''chunk'' @ ?sql \<mapsto> chunkTable)\<rparr>)))"
    if "cache w (''chunk'' @ ?sql) = None"
    using that assms(1) chunk
    by (simp add: select_def getChunk_miss split: sum.split)
  have one: "trace (snd (select d w (Some p))) = trace w @ [PoolQuery (baseRequest ?sql)]"
    if "cache w (''chunk'' @ ?sql) = None"
    unfolding miss [OF that] by (simp add: issue_def split: sum.split)
  have fail: "fst (select d w (Some p)) = Inl e"
    if "cache w (''chunk'' @ ?sql) = None" and "queryReply d (baseRequest ?sql) = Inl e"
    unfolding miss [OF that(1)] using that(2) by simp
  have rows: "fst (select d w (Some p))
                = (if rowId (hd rs) = JUndefined then Inl (Error ''id is required'')
                   else Inr (Total (length (specWindows (length rs)))))"
    if "cache w (''chunk'' @ ?sql) = None" and "queryReply d (baseRequest ?sql) = Inr (Rows rs)"
      and "rs \<noteq> []" and "\<not> (length rs = 1 \<and> hasLimitOne ?sql)"
  proof (cases "rowId (hd rs) = JUndefined")
    case True
    then show ?thesis
      unfolding miss [OF that(1)] using that(2,3)
      by (simp add: unwrapOne_rows [OF that(4)] buildChunkTable_no_id)
  next
    case False
    then show ?thesis
      unfolding miss [OF that(1)] using that(2,3)
      by (simp add: unwrapOne_rows [OF that(4)] buildChunkTable_windows)
  qed
  show ?thesis
    using hit one fail rows by blast
qed

text \<open>
  Witness for C8: a count-only request on an empty cache, the base query answering three
  rows with ids: one query is sent and the total is one window.
\<close>

theorem select_count_only_witness:
  "pool readyWorld
   \<and> q_chunk (exampleParams\<lparr>q_chunk := Some ChunkCount\<rparr>) = Some ChunkCount
   \<and> cache readyWorld (''chunk'' @ ''SELECT * FROM t WHERE 1=1'') = None
   \<and> queryReply (exampleDriver exampleRows) (baseRequest ''SELECT * FROM t WHERE 1=1'')
       = Inr (Rows exampleRows)
   \<and> trace (snd (select (exampleDriver exampleRows) readyWorld
                   (Some (exampleParams\<lparr>q_chunk := Some ChunkCount\<rparr>))))
       = [PoolQuery (baseRequest ''SELECT * FROM t WHERE 1=1'')]
   \<and> fst (select (exampleDriver exampleRows) readyWorld
             (Some (exampleParams\<lparr>q_chunk := Some ChunkCount\<rparr>)))
       = Inr (Total 1)"
proof -
  let ?p = "exampleParams\<lparr>q_chunk := Some ChunkCount\<rparr>"
  have h1: "pool readyWorld"
    by (simp add: readyWorld_def)
  have h2: "q_chunk ?p = Some ChunkCount"
    by simp
  have sql: "selectSql ?p = ''SELECT * FROM t WHERE 1=1''"
    by code_simp
  have miss: "cache readyWorld (''chunk'' @ ''SELECT * FROM t WHERE 1=1'') = None"
    by (simp add: readyWorld_def)
  have reply: "queryReply (exampleDriver exampleRows) (baseRequest ''SELECT * FROM t WHERE 1=1'')
               = Inr (Rows exampleRows)"
    by (simp add: exampleDriver_def)
  have rows: "exampleRows \<noteq> []" "\<not> (length exampleRows = 1 \<and> hasLimitOne ''SELECT * FROM t WHERE 1=1'')"
    "rowId (hd exampleRows) \<noteq> JUndefined" "length (specWindows (length exampleRows)) = 1"
    by (simp_all add: exampleRows_def rowId_def specWindows_def)
  show ?thesis
    using select_count_only [OF h1 h2, of Nil "exampleDriver exampleRows" "SqlError []" exampleRows]
      h1 miss reply rows
    by (simp add: sql readyWorld_def)
qed

text \<open>
  Counterexample to C8 as stated: a count-only request whose base query returns a row
  without an \<^verbatim>\<open>id\<close> column does not return a total; the guard of \<^verbatim>\<open>getChunk\<close> throws
  \<^verbatim>\<open>id is required\<close>.
\<close>

theorem select_count_only_counterexample:
  "fst (select (exampleDriver [[(''name'', CStr ''Ann'')]]) readyWorld
          (Some (exampleParams\<lparr>q_chunk := Some ChunkCount\<rparr>)))
     = Inl (Error ''id is required'')"
proof -
  let ?p = "exampleParams\<lparr>q_chunk := Some ChunkCount\<rparr>"
  have chunk: "chunkOf ?p = Some ChunkCount"
    by (simp add: chunkOf_def)
  have sql: "selectSql ?p = ''SELECT * FROM t WHERE 1=1''"
    by code_simp
  have nolim: "\<not> hasLimitOne ''SELECT * FROM t WHERE 1=1''"
    by code_simp
  have "pool readyWorld" and "cache readyWorld (''chunk'' @ selectSql ?p) = None"
    by (simp_all add: readyWorld_def)
  then have "fst (getChunk (exampleDriver [[(''name'', CStr ''Ann'')]]) readyWorld (selectSql ?p)
                    ChunkCount)
             = Inl (Error ''id is required'')"
    using nolim by (simp add: getChunk_miss sql) (simp add: exampleDriver_def rowId_def)
  then show ?thesis
    using chunk by (intro select_getChunk_error [where c = ChunkCount]) (simp_all add: readyWorld_def)
qed

text \<open>
  Claim C9. For the empty list \<^verbatim>\<open>[]\<close>, \<^const>\<open>buildWhere\<close> returns the empty string, by the
  final string coercion and not the \<^verbatim>\<open>1 = 1\<close> of the empty case, and
  \<^const>\<open>buildWhereParams\<close> returns no parameters; so the SQL text of a \<^verbatim>\<open>select\<close> with
  \<^verbatim>\<open>where: []\<close> has \<^verbatim>\<open> WHERE \<close> followed by no predicate.
\<close>

theorem empty_list_where:
  "buildWhere (JArr []) = toString (JArr [])
   \<and> buildWhere (JArr []) = []
   \<and> buildWhereParams (JArr []) JUndefined = []
   \<and> selectSql (p\<lparr>q_where := JArr []\<rparr>)
       = selectFrom p @ joinClauses p @ '' WHERE '' @ groupClause p @ orderClause p @ limitClause p"
  by (simp add: buildWhere_def buildWhereParams_def selectSql_def clauses_ignore_where
        whereClause_def whereGiven_def)

text \<open>
  Witness for C9: \<^verbatim>\<open>select({ from: 't', where: [] })\<close> assembles \<^verbatim>\<open>SELECT * FROM t WHERE \<close>.
\<close>

theorem empty_list_where_witness:
  "selectSql (exampleParams\<lparr>q_where := JArr []\<rparr>) = ''SELECT * FROM t WHERE ''"
proof -
  have "selectFrom exampleParams = ''SELECT * FROM t''"
    by (simp add: selectFrom_def exampleParams_def selectItem_def startsWith_def)
  moreover have "joinClauses exampleParams = []" "groupClause exampleParams = []"
    "orderClause exampleParams = []" "limitClause exampleParams = []"
    by (simp_all add: joinClauses_def groupClause_def orderClause_def limitClause_def
          exampleParams_def)
  ultimately show ?thesis
    using empty_list_where [of exampleParams] by simp
qed

text \<open>
  Claim C10. When the pool is not initialized, \<^const>\<open>query\<close> and \<^const>\<open>batch\<close> throw an
  error, while \<^const>\<open>select\<close> and \<^const>\<open>execute\<close> return the plain object
  \<^verbatim>\<open>{ error: 'pool is not initialized' }\<close> as a normal result; nothing is sent to the
  client.
\<close>

theorem pool_not_initialized:
  "\<not> pool w \<Longrightarrow>
   query d w sql vals params = (Inl (Error ''pool is not initialized''), w)
   \<and> batch d w sql vals params = (Inl (Error ''pool is not initialized''), w)
   \<and> select d w ps = (Inr (ErrorObj ''pool is not initialized''), w)
   \<and> execute d w sql vals params = (Inr (ErrorObj ''pool is not initialized''), w)"
  by (simp add: query_def batch_def select_def execute_def)

text \<open>
  Witness for C10: the four calls in a state without a pool.
\<close>

theorem pool_not_initialized_witness:
  "\<not> pool freshWorld
   \<and> query (exampleDriver []) freshWorld ''SELECT 1'' JUndefined (JArr [])
       = (Inl (Error ''pool is not initialized''), freshWorld)
   \<and> batch (exampleDriver []) freshWorld ''SELECT 1'' JUndefined (JArr [])
       = (Inl (Error ''pool is not initialized''), freshWorld)
   \<and> select (exampleDriver []) freshWorld (Some exampleParams)
       = (Inr (ErrorObj ''pool is not initialized''), freshWorld)
   \<and> execute (exampleDriver []) freshWorld ''SELECT 1'' JUndefined (JArr [])
       = (Inr (ErrorObj ''pool is not initialized''), freshWorld)"
proof -
  have h: "\<not> pool freshWorld"
    by (simp add: freshWorld_def)
  show ?thesis
    using h pool_not_initialized [OF h, of "exampleDriver []" "''SELECT 1''" JUndefined "JArr []"
        "Some exampleParams"]
    by simp
qed

end
